theory Spec2Isabelle
  imports Main
begin

section \<open>Randomized measurement: Python values and exceptions\<close>

text \<open>
  The development embeds the two classes of the notebook cell \<open>04f65aad\<close>:
  \<open>RandomizedMeasurement\<close> (the generator of twirled measurement circuits) and
  \<open>RandomizedMeasurementAnalysis\<close> (the analysis that folds the outcome histograms
  of all circuits into one).

  Exceptions are values. \<open>KeyError\<close>, \<open>IndexError\<close> and \<open>StopIteration\<close> are the
  Python exceptions the analysis can raise; \<open>CircuitError\<close> is what the circuit library
  raises when it rejects the arguments of \<open>compose\<close> or \<open>measure\<close>, and \<open>ValueError\<close>
  is what \<open>default_rng\<close> raises for a negative integer seed.
  \<open>InvalidSpecError\<close> and \<open>MetadataMissingError\<close> are the error names of the
  specification; no statement of the source raises them.
\<close>

datatype error =
    KeyError string
  | IndexError
  | StopIteration
  | CircuitError
  | ValueError
  | InvalidSpecError
  | MetadataMissingError

text \<open>
  A Python \<open>dict\<close> is an association list in insertion order. \<open>d[k]\<close> reads the entry
  (\<open>None\<close> stands for the \<open>KeyError\<close> the caller turns it into), \<open>d[k] = v\<close> overwrites
  an existing entry in place and appends a new one otherwise.
\<close>

type_synonym ('k, 'v) dict = "('k \<times> 'v) list"

definition dict_get :: "('k, 'v) dict \<Rightarrow> 'k \<Rightarrow> 'v option" where
  "dict_get d k = map_of d k"

fun dict_set :: "('k, 'v) dict \<Rightarrow> 'k \<Rightarrow> 'v \<Rightarrow> ('k, 'v) dict" where
  "dict_set [] k v = [(k, v)]"
| "dict_set ((k', v') # d) k v =
     (if k' = k then (k', v) # d else (k', v') # dict_set d k v)"

text \<open>
  Python list indexing \<open>xs[i]\<close> and list assignment \<open>xs[i] = v\<close>: an index from
  \<open>-len(xs)\<close> to \<open>-1\<close> counts from the end, anything outside \<open>-len(xs) .. len(xs)-1\<close>
  raises \<open>IndexError\<close> (\<open>None\<close> here).
\<close>

definition py_index :: "'a list \<Rightarrow> int \<Rightarrow> 'a option" where
  "py_index xs i =
     (let n = int (length xs) in
      if 0 \<le> i \<and> i < n then Some (xs ! nat i)
      else if - n \<le> i \<and> i < 0 then Some (xs ! nat (n + i))
      else None)"

definition py_assign :: "'a list \<Rightarrow> int \<Rightarrow> 'a \<Rightarrow> 'a list option" where
  "py_assign xs i v =
     (let n = int (length xs) in
      if 0 \<le> i \<and> i < n then Some (xs[nat i := v])
      else if - n \<le> i \<and> i < 0 then Some (xs[nat (n + i) := v])
      else None)"

section \<open>RandomizedMeasurementAnalysis\<close>

text \<open>
  One element of \<open>experiment_data.data()\<close>: the outcome histogram of one circuit
  (bitstring to count) and the metadata the generator attached to that circuit. The
  metadata values read by the analysis are lists of integers.
\<close>

type_synonym histogram = "(string, int) dict"

record datum =
  counts :: histogram
  metadata :: "(string, int list) dict"

text \<open>The helper dictionary \<open>_swap_bit = {"0": "1", "1": "0"}\<close>.\<close>

definition swap_bit :: "char \<Rightarrow> char option" where
  "swap_bit b =
     (if b = CHR ''0'' then Some (CHR ''1'')
      else if b = CHR ''1'' then Some (CHR ''0'')
      else None)"

text \<open>
  The list comprehension of \<open>_swap_bitstring\<close>,
  \<^verbatim>\<open>[cls._swap_bit[b] if sig[- 1 - i] else b for i, b in enumerate(bitstring)]\<close>,
  from enumeration index \<open>i\<close> on. The condition \<open>sig[-1-i]\<close> is evaluated first (and may
  raise \<open>IndexError\<close>); an entry is true when it is not \<open>0\<close>; only then is the character
  looked up in \<open>_swap_bit\<close> (and may raise \<open>KeyError\<close>).
\<close>

fun swap_chars :: "int list \<Rightarrow> nat \<Rightarrow> string \<Rightarrow> error + string" where
  "swap_chars sig i [] = Inr []"
| "swap_chars sig i (b # bs) =
     (case py_index sig (- 1 - int i) of
        None \<Rightarrow> Inl IndexError
      | Some s \<Rightarrow>
          (if s \<noteq> 0 then
             (case swap_bit b of
                None \<Rightarrow> Inl (KeyError [b])
              | Some b' \<Rightarrow>
                  (case swap_chars sig (Suc i) bs of
                     Inl e \<Rightarrow> Inl e
                   | Inr cs \<Rightarrow> Inr (b' # cs)))
           else
             (case swap_chars sig (Suc i) bs of
                Inl e \<Rightarrow> Inl e
              | Inr cs \<Rightarrow> Inr (b # cs))))"

text \<open>
  \<open>_swap_bitstring(bitstring, sig)\<close>: the characters of the comprehension, reversed and
  joined.
\<close>

definition swap_bitstring :: "string \<Rightarrow> int list \<Rightarrow> error + string" where
  "swap_bitstring bitstring sig =
     (case swap_chars sig 0 bitstring of
        Inl e \<Rightarrow> Inl e
      | Inr cs \<Rightarrow> Inr (rev cs))"

text \<open>
  The loop \<^verbatim>\<open>for bit, val in zip(clbits, sig): full_sig[bit] = val\<close> over the pairs
  that \<open>zip\<close> yields.
\<close>

fun assign_sig :: "int list \<Rightarrow> (int \<times> int) list \<Rightarrow> error + int list" where
  "assign_sig full_sig [] = Inr full_sig"
| "assign_sig full_sig ((clbit, v) # rest) =
     (case py_assign full_sig clbit v of
        None \<Rightarrow> Inl IndexError
      | Some full_sig' \<Rightarrow> assign_sig full_sig' rest)"

text \<open>
  The body of the inner loop after the untwirl:
  \<^verbatim>\<open>if bitstring in combined_counts: combined_counts[bitstring] += val
  else: combined_counts[bitstring] = val\<close>
\<close>

definition accumulate :: "histogram \<Rightarrow> string \<Rightarrow> int \<Rightarrow> histogram" where
  "accumulate combined_counts bitstring val =
     (case dict_get combined_counts bitstring of
        Some old \<Rightarrow> dict_set combined_counts bitstring (old + val)
      | None \<Rightarrow> dict_set combined_counts bitstring val)"

text \<open>The inner loop \<^verbatim>\<open>for key, val in counts.items()\<close>.\<close>

fun fold_counts :: "int list \<Rightarrow> histogram \<Rightarrow> (string \<times> int) list \<Rightarrow> error + histogram" where
  "fold_counts full_sig combined_counts [] = Inr combined_counts"
| "fold_counts full_sig combined_counts ((key, val) # items) =
     (case swap_bitstring key full_sig of
        Inl e \<Rightarrow> Inl e
      | Inr bitstring \<Rightarrow> fold_counts full_sig (accumulate combined_counts bitstring val) items)"

text \<open>
  The body of the outer loop for one datum. \<open>next(iter(counts))\<close> raises
  \<open>StopIteration\<close> on an empty histogram, before the metadata is read; the width
  \<open>num_bits\<close> is the length of the first key.
\<close>

definition process_datum :: "histogram \<Rightarrow> datum \<Rightarrow> error + histogram" where
  "process_datum combined_counts d =
     (case counts d of
        [] \<Rightarrow> Inl StopIteration
      | (first_key, _) # _ \<Rightarrow>
          (let num_bits = length first_key in
           case dict_get (metadata d) ''rm_bits'' of
             None \<Rightarrow> Inl (KeyError ''rm_bits'')
           | Some clbits \<Rightarrow>
               (case dict_get (metadata d) ''rm_sig'' of
                  None \<Rightarrow> Inl (KeyError ''rm_sig'')
                | Some sig \<Rightarrow>
                    (case assign_sig (replicate num_bits 0) (zip clbits sig) of
                       Inl e \<Rightarrow> Inl e
                     | Inr full_sig \<Rightarrow> fold_counts full_sig combined_counts (counts d)))))"

text \<open>The outer loop \<^verbatim>\<open>for datum in experiment_data.data()\<close>.\<close>

fun run_data :: "histogram \<Rightarrow> datum list \<Rightarrow> error + histogram" where
  "run_data combined_counts [] = Inr combined_counts"
| "run_data combined_counts (d # ds) =
     (case process_datum combined_counts d of
        Inl e \<Rightarrow> Inl e
      | Inr combined_counts' \<Rightarrow> run_data combined_counts' ds)"

text \<open>
  \<open>_run_analysis\<close>: starts from the empty dictionary and returns the combined counts
  (the value of the single \<open>AnalysisResultData\<close> named \<open>counts\<close>).
\<close>

definition run_analysis :: "datum list \<Rightarrow> error + histogram" where
  "run_analysis data = run_data [] data"

section \<open>RandomizedMeasurement\<close>

text \<open>
  What the generator reads from the base circuit: its widths, its name and its metadata
  (\<open>None\<close> when the circuit has no metadata).
\<close>

record quantum_circuit =
  circ_num_qubits :: nat
  circ_num_clbits :: nat
  circ_name :: string
  circ_metadata :: "(string, int list) dict option"

text \<open>
  A Pauli of \<open>random_pauli_list\<close>: its \<open>z\<close> and \<open>x\<close> boolean vectors, entry \<open>j\<close> for
  qubit \<open>j\<close> of the Pauli.
\<close>

record pauli =
  pauli_z :: "bool list"
  pauli_x :: "bool list"

text \<open>
  The option \<open>seed\<close>: \<open>None\<close>, an integer, or a \<open>numpy.random.Generator\<close> object, given
  by its current state.
\<close>

datatype 'g seed = NoSeed | IntSeed int | GeneratorSeed 'g

text \<open>A keyword argument that has a default which is not \<open>None\<close>.\<close>

datatype 'a arg = Omitted | Passed 'a

text \<open>
  The calls into the circuit library that can reject their arguments:
  \<open>circ.compose(self._circuit, circ_qubits, circ_clbits)\<close>,
  \<open>circ.compose(pauli, meas_qubits)\<close> and \<open>circ.measure(meas_qubits, meas_clbits)\<close>,
  each with the qubit and classical-bit widths of \<open>circ\<close>.
\<close>

datatype library_call =
    Compose_circuit nat nat quantum_circuit "nat list" "nat list"
  | Compose_pauli nat nat pauli "nat list"
  | Measure nat nat "nat list" "nat list"

text \<open>
  The libraries the generator calls are parameters of the model:
  \<open>default_rng\<close> of an integer seed, one unbiased draw of the generator
  (\<open>rng.integers(2)\<close>), \<open>str(pauli)\<close>, and whether the circuit library accepts a call
  (it raises \<open>CircuitError\<close> otherwise). None of them is part of the notebook.
\<close>

record 'g library =
  default_rng :: "int \<Rightarrow> 'g"
  next_bit :: "'g \<Rightarrow> bool \<times> 'g"
  pauli_str :: "pauli \<Rightarrow> string"
  accepts :: "library_call \<Rightarrow> bool"

text \<open>The experiment object after \<open>__init__\<close>.\<close>

record 'g randomized_measurement =
  circuit :: quantum_circuit
  measured_qubits :: "nat list"
  physical_qubits :: "nat list"
  opt_num_samples :: "nat option"
  opt_seed :: "'g seed"

text \<open>
  \<open>__init__(circuit, measured_qubits=None, physical_qubits=None, backend=None,
  num_samples=10, seed=None)\<close>. The constructor always calls
  \<open>set_experiment_options(num_samples=num_samples, seed=seed)\<close>, which overwrites the
  \<open>None\<close> of \<open>_default_experiment_options\<close>. \<open>init\<close> is the object the constructor
  returns; the constructor of the base class, which is not part of the notebook, returns
  none when the physical qubits contain a duplicate.
\<close>

definition init ::
  "quantum_circuit \<Rightarrow> nat list option \<Rightarrow> nat list option \<Rightarrow> nat option arg \<Rightarrow> 'g seed
     \<Rightarrow> 'g randomized_measurement" where
  "init circ measured physical num_samples seed =
     \<lparr>circuit = circ,
      measured_qubits =
        (case measured of None \<Rightarrow> [0..<circ_num_qubits circ] | Some qs \<Rightarrow> qs),
      physical_qubits =
        (case physical of None \<Rightarrow> [0..<circ_num_qubits circ] | Some qs \<Rightarrow> qs),
      opt_num_samples = (case num_samples of Omitted \<Rightarrow> Some 10 | Passed n \<Rightarrow> n),
      opt_seed = seed\<rparr>"

text \<open>\<open>self.num_qubits\<close> of the base class: the number of physical qubits.\<close>

definition num_qubits :: "'g randomized_measurement \<Rightarrow> nat" where
  "num_qubits exp = length (physical_qubits exp)"

text \<open>
  \<open>rng.integers(2, size=(size, num_qubits)).astype(bool)\<close>: \<open>size\<close> rows of
  \<open>num_qubits\<close> draws each, filled row by row.
\<close>

primrec draw_bits :: "('g \<Rightarrow> bool \<times> 'g) \<Rightarrow> nat \<Rightarrow> 'g \<Rightarrow> bool list \<times> 'g" where
  "draw_bits nb 0 g = ([], g)"
| "draw_bits nb (Suc n) g =
     (case nb g of (b, g1) \<Rightarrow>
        (case draw_bits nb n g1 of (bs, g2) \<Rightarrow> (b # bs, g2)))"

primrec draw_rows :: "('g \<Rightarrow> bool \<times> 'g) \<Rightarrow> nat \<Rightarrow> nat \<Rightarrow> 'g \<Rightarrow> bool list list \<times> 'g" where
  "draw_rows nb 0 cols g = ([], g)"
| "draw_rows nb (Suc rows) cols g =
     (case draw_bits nb cols g of (r, g1) \<Rightarrow>
        (case draw_rows nb rows cols g1 of (rs, g2) \<Rightarrow> (r # rs, g2)))"

text \<open>
  \<open>random_pauli_list(num_qubits, size, phase=False, seed=rng)\<close>: the \<open>z\<close> matrix is
  drawn first, then the \<open>x\<close> matrix; row \<open>i\<close> of both is Pauli \<open>i\<close>. The generator is
  returned in the state the draws leave it in.
\<close>

definition random_pauli_list :: "'g library \<Rightarrow> nat \<Rightarrow> nat \<Rightarrow> 'g \<Rightarrow> pauli list \<times> 'g" where
  "random_pauli_list lib n sz rng =
     (case draw_rows (next_bit lib) sz n rng of (zs, g1) \<Rightarrow>
        (case draw_rows (next_bit lib) sz n g1 of (xs, g2) \<Rightarrow>
           (map (\<lambda>(z, x). \<lparr>pauli_z = z, pauli_x = x\<rparr>) (zip zs xs), g2)))"

text \<open>
  A generated circuit: its name and widths, the instructions appended to it, and its
  metadata.
\<close>

datatype instruction =
    Base_circuit quantum_circuit "nat list" "nat list"
  | Pauli_gate pauli "nat list"
  | Measure_op nat nat

record variant =
  var_name :: string
  var_num_qubits :: nat
  var_num_clbits :: nat
  var_data :: "instruction list"
  var_metadata :: "(string, int list) dict"

text \<open>
  The body of the loop \<^verbatim>\<open>for pauli in paulis\<close> of \<open>circuits\<close>, with the local
  variables computed before the loop as arguments. \<open>circ.measure\<close> of two lists measures
  qubit \<open>meas_qubits[i]\<close> into classical bit \<open>meas_clbits[i]\<close>;
  \<open>pauli.x.astype(int).tolist()\<close> is the list of \<open>0\<close> and \<open>1\<close> of the \<open>x\<close> vector.
\<close>

definition make_circuit ::
  "'g library \<Rightarrow> 'g randomized_measurement \<Rightarrow> nat \<Rightarrow> nat \<Rightarrow> nat list \<Rightarrow> nat list \<Rightarrow> nat list \<Rightarrow> nat list
     \<Rightarrow> (string, int list) dict \<Rightarrow> pauli \<Rightarrow> error + variant" where
  "make_circuit lib exp circ_nc meas_nc circ_qubits circ_clbits meas_qubits meas_clbits
       orig_metadata p =
     (let name = circ_name (circuit exp) @ ''_'' @ pauli_str lib p in
      if \<not> accepts lib (Compose_circuit (num_qubits exp) (circ_nc + meas_nc)
                          (circuit exp) circ_qubits circ_clbits)
      then Inl CircuitError
      else if \<not> accepts lib (Compose_pauli (num_qubits exp) (circ_nc + meas_nc) p meas_qubits)
      then Inl CircuitError
      else if \<not> accepts lib (Measure (num_qubits exp) (circ_nc + meas_nc)
                               meas_qubits meas_clbits)
      then Inl CircuitError
      else Inr
        \<lparr>var_name = name,
         var_num_qubits = num_qubits exp,
         var_num_clbits = circ_nc + meas_nc,
         var_data =
           Base_circuit (circuit exp) circ_qubits circ_clbits
           # Pauli_gate p meas_qubits
           # map (\<lambda>(q, c). Measure_op q c) (zip meas_qubits meas_clbits),
         var_metadata =
           dict_set (dict_set orig_metadata ''rm_bits'' (map int meas_clbits))
             ''rm_sig'' (map (\<lambda>b. if b then 1 else 0) (pauli_x p))\<rparr>)"

fun circuits_loop ::
  "'g library \<Rightarrow> 'g randomized_measurement \<Rightarrow> nat \<Rightarrow> nat \<Rightarrow> nat list \<Rightarrow> nat list \<Rightarrow> nat list \<Rightarrow> nat list
     \<Rightarrow> (string, int list) dict \<Rightarrow> pauli list \<Rightarrow> error + variant list" where
  "circuits_loop lib exp circ_nc meas_nc circ_qubits circ_clbits meas_qubits meas_clbits
       orig_metadata [] = Inr []"
| "circuits_loop lib exp circ_nc meas_nc circ_qubits circ_clbits meas_qubits meas_clbits
       orig_metadata (p # paulis) =
     (case make_circuit lib exp circ_nc meas_nc circ_qubits circ_clbits meas_qubits meas_clbits
             orig_metadata p of
        Inl e \<Rightarrow> Inl e
      | Inr circ \<Rightarrow>
          (case circuits_loop lib exp circ_nc meas_nc circ_qubits circ_clbits meas_qubits
                  meas_clbits orig_metadata paulis of
             Inl e \<Rightarrow> Inl e
           | Inr circs \<Rightarrow> Inr (circ # circs)))"

text \<open>
  The sample count \<open>circuits\<close> uses: the option, or \<open>2 ** self.num_qubits\<close> when the
  option is \<open>None\<close>.
\<close>

definition num_samples :: "'g randomized_measurement \<Rightarrow> nat" where
  "num_samples exp =
     (case opt_num_samples exp of None \<Rightarrow> 2 ^ num_qubits exp | Some n \<Rightarrow> n)"

text \<open>
  The generator of a run:
  \<^verbatim>\<open>if isinstance(seed, Generator): rng = seed
  else: rng = default_rng(seed)\<close>
  A \<open>Generator\<close> object is used as it is; \<open>default_rng\<close> raises \<open>ValueError\<close> for a
  negative integer and seeds a new generator from a non-negative one; for \<open>None\<close> it
  returns a generator seeded by the operating system, the argument \<open>entropy\<close>.
\<close>

definition seed_rng :: "'g library \<Rightarrow> 'g seed \<Rightarrow> 'g \<Rightarrow> error + 'g" where
  "seed_rng lib seed entropy =
     (case seed of
        GeneratorSeed g \<Rightarrow> Inr g
      | IntSeed s \<Rightarrow> (if s < 0 then Inl ValueError else Inr (default_rng lib s))
      | NoSeed \<Rightarrow> Inr entropy)"

text \<open>
  \<open>circuits\<close>. The argument \<open>entropy\<close> is the generator that \<open>default_rng(None)\<close>
  returns at this call. The result is the list of circuits (or the exception) and the seed
  option after the call: a \<open>Generator\<close> object passed as seed is left in the state after
  the draws. The generator is made, and the Paulis are drawn, before the loop. In the
  notebook the final \<open>return circuits\<close> is indented as a statement of the class body,
  where Python does not accept it; it is read here as the last statement of the method,
  which the cells that call \<open>exp.circuits()[0]\<close> rely on.
\<close>

definition circuits ::
  "'g library \<Rightarrow> 'g randomized_measurement \<Rightarrow> 'g \<Rightarrow> (error + variant list) \<times> 'g seed" where
  "circuits lib exp entropy =
     (let circ_nc = circ_num_clbits (circuit exp);
          meas_nc = length (measured_qubits exp);
          circ_qubits = [0..<num_qubits exp];
          circ_clbits = [0..<circ_nc];
          meas_qubits = measured_qubits exp;
          meas_clbits = [circ_nc..<circ_nc + meas_nc];
          orig_metadata = (case circ_metadata (circuit exp) of None \<Rightarrow> [] | Some m \<Rightarrow> m)
      in case seed_rng lib (opt_seed exp) entropy of
           Inl e \<Rightarrow> (Inl e, opt_seed exp)
         | Inr rng \<Rightarrow>
             (case random_pauli_list lib meas_nc (num_samples exp) rng of
                (paulis, rng') \<Rightarrow>
                  (circuits_loop lib exp circ_nc meas_nc circ_qubits circ_clbits meas_qubits
                     meas_clbits orig_metadata paulis,
                   (case opt_seed exp of GeneratorSeed _ \<Rightarrow> GeneratorSeed rng' | s \<Rightarrow> s))))"

section \<open>A reference instance of the libraries\<close>

text \<open>
  For evaluating the generator on concrete inputs: a circuit library that accepts qubit
  and classical-bit arguments exactly when they are in range and free of duplicates (and
  the composed circuit has the widths of the argument lists), the Pauli label as
  \<open>str(pauli)\<close> (qubit 0 rightmost), and a generator that hands out the binary digits
  of its seed, lowest first.
\<close>

fun qargs_ok :: "library_call \<Rightarrow> bool" where
  "qargs_ok (Compose_circuit nq nc c qs cs) =
     (circ_num_qubits c = length qs \<and> circ_num_clbits c = length cs
      \<and> list_all (\<lambda>q. q < nq) qs \<and> distinct qs
      \<and> list_all (\<lambda>c. c < nc) cs \<and> distinct cs)"
| "qargs_ok (Compose_pauli nq nc p qs) =
     (list_all (\<lambda>q. q < nq) qs \<and> distinct qs)"
| "qargs_ok (Measure nq nc qs cs) =
     (length qs = length cs \<and> list_all (\<lambda>q. q < nq) qs \<and> distinct qs
      \<and> list_all (\<lambda>c. c < nc) cs \<and> distinct cs)"

definition pauli_label :: "pauli \<Rightarrow> string" where
  "pauli_label p =
     rev (map (\<lambda>(z, x). if z then (if x then CHR ''Y'' else CHR ''Z'')
                         else (if x then CHR ''X'' else CHR ''I''))
              (zip (pauli_z p) (pauli_x p)))"

definition digits_library :: "nat library" where
  "digits_library =
     \<lparr>default_rng = (\<lambda>s. nat \<bar>s\<bar>),
      next_bit = (\<lambda>g. (odd g, g div 2)),
      pauli_str = pauli_label,
      accepts = qargs_ok\<rparr>"

text \<open>
  A base circuit on two qubits with one classical bit of its own, the experiment on it
  with seed \<open>108\<close>, and the shape of the circuits generated from it.
\<close>

definition ghz :: quantum_circuit where
  "ghz = \<lparr>circ_num_qubits = 2, circ_num_clbits = 1, circ_name = ''ghz'', circ_metadata = None\<rparr>"

definition ghz_experiment :: "nat option arg \<Rightarrow> nat randomized_measurement" where
  "ghz_experiment ns = init ghz None None ns (IntSeed 108)"

definition ghz_variant :: "string \<Rightarrow> bool list \<Rightarrow> bool list \<Rightarrow> int list \<Rightarrow> variant" where
  "ghz_variant label z x sig =
     \<lparr>var_name = ''ghz_'' @ label, var_num_qubits = 2, var_num_clbits = 3,
      var_data = [Base_circuit ghz [0, 1] [0],
                  Pauli_gate \<lparr>pauli_z = z, pauli_x = x\<rparr> [0, 1],
                  Measure_op 0 1, Measure_op 1 2],
      var_metadata = [(''rm_bits'', [1, 2]), (''rm_sig'', sig)]\<rparr>"

section \<open>Notions used to state the properties\<close>

text \<open>The sum of all values of a histogram, \<open>sum(h.values())\<close>.\<close>

definition total :: "histogram \<Rightarrow> int" where
  "total h = sum_list (map snd h)"

text \<open>A bitstring of width \<open>n\<close>: \<open>n\<close> characters, each \<open>0\<close> or \<open>1\<close>.\<close>

definition binary_string :: "nat \<Rightarrow> string \<Rightarrow> bool" where
  "binary_string n s = (length s = n \<and> set s \<subseteq> {CHR ''0'', CHR ''1''})"

text \<open>
  The exceptions of Python itself that the analysis can raise, as opposed to the typed
  errors of the specification.
\<close>

definition python_exception :: "error \<Rightarrow> bool" where
  "python_exception e =
     (case e of KeyError _ \<Rightarrow> True | IndexError \<Rightarrow> True | StopIteration \<Rightarrow> True | _ \<Rightarrow> False)"

text \<open>
  The exclusive-or of a key with a pattern, following the specification's words, for keys
  in the order of the circuit library: the character at string position \<open>i\<close> of a key of
  width \<open>n\<close> is classical bit \<open>n - 1 - i\<close> (the rightmost character is bit \<open>0\<close>), and
  entry \<open>j\<close> of the pattern belongs to classical bit \<open>circ_nc + j\<close>. A character is
  flipped if and only if its classical bit is one of the reserved ones and the pattern
  entry of that bit is true.
\<close>

definition flip_char :: "char \<Rightarrow> char" where
  "flip_char b = (if b = CHR ''0'' then CHR ''1'' else CHR ''0'')"

definition xor_little_endian :: "nat \<Rightarrow> int list \<Rightarrow> string \<Rightarrow> string" where
  "xor_little_endian circ_nc pattern key =
     map (\<lambda>i. let clbit = length key - 1 - i in
               if circ_nc \<le> clbit \<and> pattern ! (clbit - circ_nc) \<noteq> 0
               then flip_char (key ! i) else key ! i)
         [0..<length key]"

text \<open>
  The measurements of a generated circuit as (qubit, classical bit) pairs in program
  order, the classical bits the base circuit was composed onto, and the number of circuits
  of a result.
\<close>

definition measurements :: "variant \<Rightarrow> (nat \<times> nat) list" where
  "measurements circ =
     concat (map (\<lambda>i. case i of Measure_op q c \<Rightarrow> [(q, c)] | _ \<Rightarrow> []) (var_data circ))"

definition base_clbits :: "variant \<Rightarrow> nat list" where
  "base_clbits circ =
     concat (map (\<lambda>i. case i of Base_circuit _ _ cs \<Rightarrow> cs | _ \<Rightarrow> []) (var_data circ))"

definition num_circuits :: "(error + variant list) \<Rightarrow> nat option" where
  "num_circuits r = (case r of Inl _ \<Rightarrow> None | Inr circs \<Rightarrow> Some (length circs))"

text \<open>A seed that \<open>default_rng\<close> does not take: a negative integer.\<close>

definition negative_seed :: "'g seed \<Rightarrow> bool" where
  "negative_seed seed = (case seed of IntSeed s \<Rightarrow> s < 0 | _ \<Rightarrow> False)"

section \<open>Properties of the analysis\<close>

subsection \<open>The empty run\<close>

text \<open>
  Claim C10. The analysis of an empty sequence of results succeeds and returns the empty
  histogram.
\<close>

theorem run_analysis_empty: "run_analysis [] = Inr []"
  by (simp add: run_analysis_def)

subsection \<open>What a successful step has read\<close>

lemma process_datum_InrD:
  assumes "process_datum c d = Inr c'"
  shows "\<exists>first_key v rest clbits sig full_sig.
           counts d = (first_key, v) # rest \<and>
           dict_get (metadata d) ''rm_bits'' = Some clbits \<and>
           dict_get (metadata d) ''rm_sig'' = Some sig \<and>
           assign_sig (replicate (length first_key) 0) (zip clbits sig) = Inr full_sig \<and>
           fold_counts full_sig c (counts d) = Inr c'"
  using assms unfolding process_datum_def Let_def
  by (simp del: fold_counts.simps split: list.splits option.splits sum.splits prod.splits)

lemma run_data_append:
  "run_data c (xs @ ys) = (case run_data c xs of Inl e \<Rightarrow> Inl e | Inr c' \<Rightarrow> run_data c' ys)"
  by (induction xs arbitrary: c) (auto split: sum.splits)

subsection \<open>Conservation of counts\<close>

lemma dict_set_total_new: "map_of d k = None \<Longrightarrow> total (dict_set d k v) = total d + v"
  by (induction d) (auto simp: total_def)

lemma dict_set_total_old: "map_of d k = Some old \<Longrightarrow> total (dict_set d k v) = total d - old + v"
  by (induction d) (auto simp: total_def)

lemma accumulate_total: "total (accumulate c b v) = total c + v"
  by (auto simp: accumulate_def dict_get_def dict_set_total_new dict_set_total_old
      split: option.splits)

lemma fold_counts_total:
  "fold_counts fs c items = Inr c' \<Longrightarrow> total c' = total c + total items"
proof (induction items arbitrary: c)
  case Nil
  then show ?case by (simp add: total_def)
next
  case (Cons kv items)
  obtain key v where kv: "kv = (key, v)" by (cases kv)
  from Cons.prems kv obtain bs where
    bs: "swap_bitstring key fs = Inr bs" and
    rest: "fold_counts fs (accumulate c bs v) items = Inr c'"
    by (auto split: sum.splits)
  from Cons.IH [OF rest] have "total c' = total c + v + total items"
    by (simp add: accumulate_total)
  then show ?case using kv by (simp add: total_def)
qed

lemma process_datum_total:
  "process_datum c d = Inr c' \<Longrightarrow> total c' = total c + total (counts d)"
  using process_datum_InrD fold_counts_total by blast

lemma run_data_total:
  "run_data c ds = Inr c' \<Longrightarrow> total c' = total c + (\<Sum>d\<leftarrow>ds. total (counts d))"
proof (induction ds arbitrary: c)
  case Nil
  then show ?case by simp
next
  case (Cons d ds)
  from Cons.prems obtain c1 where
    one: "process_datum c d = Inr c1" and rest: "run_data c1 ds = Inr c'"
    by (auto split: sum.splits)
  show ?case using Cons.IH [OF rest] process_datum_total [OF one] by simp
qed

text \<open>
  Claim C2. Whenever the analysis accepts a sequence of results, the values of the combined
  histogram sum to the sum of all counts of all input histograms: no count is lost or
  duplicated.
\<close>

theorem conservation:
  "run_analysis data = Inr combined \<Longrightarrow> total combined = (\<Sum>d\<leftarrow>data. total (counts d))"
  using run_data_total [of "[]" data combined] by (simp add: run_analysis_def total_def)

text \<open>
  Two results whose untwirled keys meet on \<open>11\<close>: ten counts go in, ten come out.
\<close>

theorem conservation_witness:
  "run_analysis
     [\<lparr>counts = [(''01'', 5), (''10'', 3)],
       metadata = [(''rm_bits'', [0, 1]), (''rm_sig'', [1, 0])]\<rparr>,
      \<lparr>counts = [(''11'', 2)],
       metadata = [(''rm_bits'', [0, 1]), (''rm_sig'', [0, 0])]\<rparr>]
     = Inr [(''00'', 5), (''11'', 5)]
   \<and> total [(''00'', 5), (''11'', 5)] = 5 + 3 + 2"
proof -
  have run: "run_analysis
     [\<lparr>counts = [(''01'', 5), (''10'', 3)],
       metadata = [(''rm_bits'', [0, 1]), (''rm_sig'', [1, 0])]\<rparr>,
      \<lparr>counts = [(''11'', 2)],
       metadata = [(''rm_bits'', [0, 1]), (''rm_sig'', [0, 0])]\<rparr>]
     = Inr [(''00'', 5), (''11'', 5)]"
    by code_simp
  from conservation [OF run] run show ?thesis by (simp add: total_def)
qed

subsection \<open>The untwirl step\<close>

lemma py_assign_nat: "a < length fs \<Longrightarrow> py_assign fs (int a) p = Some (fs[a := p])"
  by (simp add: py_assign_def)

lemma py_index_from_end:
  "i < length sig \<Longrightarrow> py_index sig (- 1 - int i) = Some (sig ! (length sig - 1 - i))"
proof -
  assume a: "i < length sig"
  then have "nat (int (length sig) + (- 1 - int i)) = length sig - 1 - i" by linarith
  with a show ?thesis by (simp add: py_index_def)
qed

lemma assign_sig_block:
  "a + length ps \<le> length fs \<Longrightarrow>
   assign_sig fs (zip (map int [a..<a + length ps]) ps)
     = Inr (take a fs @ ps @ drop (a + length ps) fs)"
proof (induction ps arbitrary: a fs)
  case Nil
  then show ?case by simp
next
  case (Cons p ps)
  have upt: "[a..<a + length (p # ps)] = a # [Suc a..<Suc a + length ps]"
    by (simp add: upt_rec)
  have a: "a < length fs" using Cons.prems by simp
  have le: "Suc a + length ps \<le> length (fs[a := p])" using Cons.prems by simp
  have "assign_sig fs (zip (map int [a..<a + length (p # ps)]) (p # ps))
        = assign_sig (fs[a := p]) (zip (map int [Suc a..<Suc a + length ps]) ps)"
    unfolding upt using a by (simp add: py_assign_nat)
  also have "\<dots> = Inr (take (Suc a) (fs[a := p]) @ ps @ drop (Suc a + length ps) (fs[a := p]))"
    by (rule Cons.IH [OF le])
  also have "take (Suc a) (fs[a := p]) = take a fs @ [p]"
    using a by (simp add: take_Suc_conv_app_nth)
  also have "drop (Suc a + length ps) (fs[a := p]) = drop (a + length (p # ps)) fs"
    by simp
  finally show ?case by simp
qed

lemma assign_sig_reserved:
  "length pattern = k \<Longrightarrow>
   assign_sig (replicate (circ_nc + k) 0) (zip (map int [circ_nc..<circ_nc + k]) pattern)
     = Inr (replicate circ_nc 0 @ pattern)"
  using assign_sig_block [of circ_nc pattern "replicate (circ_nc + k) 0"] by simp

lemma swap_bit_flip: "b \<in> {CHR ''0'', CHR ''1''} \<Longrightarrow> swap_bit b = Some (flip_char b)"
  by (auto simp: swap_bit_def flip_char_def)

lemma swap_chars_flips:
  "i + length bs \<le> length sig \<Longrightarrow> set bs \<subseteq> {CHR ''0'', CHR ''1''} \<Longrightarrow>
   swap_chars sig i bs =
     Inr (map (\<lambda>j. if sig ! (length sig - 1 - (i + j)) \<noteq> 0 then flip_char (bs ! j) else bs ! j)
              [0..<length bs])"
proof (induction bs arbitrary: i)
  case Nil
  then show ?case by simp
next
  case (Cons b bs)
  have i: "i < length sig" using Cons.prems(1) by simp
  have b: "b \<in> {CHR ''0'', CHR ''1''}" using Cons.prems(2) by simp
  have rest: "swap_chars sig (Suc i) bs =
     Inr (map (\<lambda>j. if sig ! (length sig - 1 - (Suc i + j)) \<noteq> 0 then flip_char (bs ! j) else bs ! j)
              [0..<length bs])"
    using Cons.IH [of "Suc i"] Cons.prems by simp
  have shift: "[0..<length (b # bs)] = 0 # map Suc [0..<length bs]"
    by (simp add: map_Suc_upt upt_conv_Cons del: upt_Suc)
  show ?case
    unfolding shift using rest
    by (simp add: py_index_from_end [OF i] swap_bit_flip [OF b] comp_def)
qed

text \<open>
  For a result whose reserved classical bits are the block
  \<open>circ_nc, ..., circ_nc + k - 1\<close> and whose pattern has \<open>k\<close> entries, and for a key
  over \<open>0\<close> and \<open>1\<close> of the full width \<open>circ_nc + k\<close>: the full signature is the
  pattern behind \<open>circ_nc\<close> zeros, and the list comprehension of \<open>_swap_bitstring\<close> is
  the exclusive-or of the key with the pattern, the key being read in the order of the
  circuit library. The key that \<open>_swap_bitstring\<close> returns is that exclusive-or reversed.
\<close>

lemma flip_step_xor:
  assumes "length pattern = k" and "length key = circ_nc + k"
    and "set key \<subseteq> {CHR ''0'', CHR ''1''}"
  shows "assign_sig (replicate (length key) 0) (zip (map int [circ_nc..<circ_nc + k]) pattern)
           = Inr (replicate circ_nc 0 @ pattern)
       \<and> swap_chars (replicate circ_nc 0 @ pattern) 0 key
           = Inr (xor_little_endian circ_nc pattern key)"
proof (intro conjI)
  show "assign_sig (replicate (length key) 0) (zip (map int [circ_nc..<circ_nc + k]) pattern)
           = Inr (replicate circ_nc 0 @ pattern)"
    using assms(1,2) by (simp add: assign_sig_reserved)
next
  have len: "0 + length key \<le> length (replicate circ_nc (0::int) @ pattern)"
    using assms(1,2) by simp
  have "map (\<lambda>j. if (replicate circ_nc (0::int) @ pattern)
                       ! (length (replicate circ_nc (0::int) @ pattern) - 1 - (0 + j)) \<noteq> 0
                  then flip_char (key ! j) else key ! j) [0..<length key]
        = xor_little_endian circ_nc pattern key"
    unfolding xor_little_endian_def Let_def
    using assms(1,2) by (intro map_cong) (auto simp: nth_append)
  with swap_chars_flips [OF len assms(3)]
  show "swap_chars (replicate circ_nc 0 @ pattern) 0 key
           = Inr (xor_little_endian circ_nc pattern key)"
    by simp
qed

lemma swap_bitstring_reversed_xor:
  assumes "length pattern = k" and "length key = circ_nc + k"
    and "set key \<subseteq> {CHR ''0'', CHR ''1''}"
  shows "swap_bitstring key (replicate circ_nc 0 @ pattern)
           = Inr (rev (xor_little_endian circ_nc pattern key))"
  using flip_step_xor [OF assms] by (simp add: swap_bitstring_def)

text \<open>
  Claim C1, evaluated where it fails. With the pattern \<open>[true, true]\<close> on two measured
  qubits both bits of the outcome \<open>10\<close> are flipped, so the exclusive-or with the pattern
  is \<open>01\<close>, whichever end of the key is taken for qubit 0. The analysis returns the
  histogram \<open>{"10": 5}\<close> unchanged: \<open>_swap_bitstring\<close> flips both characters and then
  reverses them, so the stored key is in the opposite order to the key it was computed
  from. Likewise the key \<open>11\<close> with the pattern \<open>[true, false]\<close> is stored as \<open>01\<close>,
  where the exclusive-or in the order of the key is \<open>10\<close>.
\<close>

theorem untwirl_output_reversed:
  "run_analysis
     [\<lparr>counts = [(''10'', 5)],
       metadata = [(''rm_bits'', [0, 1]), (''rm_sig'', [1, 1])]\<rparr>]
     = Inr [(''10'', 5)]
   \<and> xor_little_endian 0 [1, 1] ''10'' = ''01''
   \<and> run_analysis
     [\<lparr>counts = [(''11'', 5)],
       metadata = [(''rm_bits'', [0, 1]), (''rm_sig'', [1, 0])]\<rparr>]
     = Inr [(''01'', 5)]
   \<and> xor_little_endian 0 [1, 0] ''11'' = ''10''"
proof -
  have a: "run_analysis
     [\<lparr>counts = [(''10'', 5)],
       metadata = [(''rm_bits'', [0, 1]), (''rm_sig'', [1, 1])]\<rparr>]
     = Inr [(''10'', 5)]"
    by code_simp
  have b: "xor_little_endian 0 [1, 1] ''10'' = ''01''"
    by code_simp
  have c: "run_analysis
     [\<lparr>counts = [(''11'', 5)],
       metadata = [(''rm_bits'', [0, 1]), (''rm_sig'', [1, 0])]\<rparr>]
     = Inr [(''01'', 5)]"
    by code_simp
  have d: "xor_little_endian 0 [1, 0] ''11'' = ''10''"
    by code_simp
  from a b c d show ?thesis by (intro conjI)
qed

text \<open>
  Claim C3, evaluated where it fails. With the all-false pattern the analysis does not
  return the histogram \<open>{"10": 5}\<close> unchanged: the key comes back reversed, as \<open>01\<close>.
  \<open>_swap_bitstring\<close> already reads the signature from the end (\<open>sig[-1-i]\<close>) and then
  reverses the characters once more.
\<close>

theorem all_false_pattern_reverses:
  "run_analysis
     [\<lparr>counts = [(''10'', 5)],
       metadata = [(''rm_bits'', [0, 1]), (''rm_sig'', [0, 0])]\<rparr>]
     = Inr [(''01'', 5)]"
  by code_simp

subsection \<open>The keys of the combined histogram\<close>

lemma swap_chars_length: "swap_chars sig i bs = Inr cs \<Longrightarrow> length cs = length bs"
  by (induction bs arbitrary: i cs) (auto split: option.splits if_splits sum.splits)

lemma swap_bit_binary: "swap_bit b = Some b' \<Longrightarrow> b' \<in> {CHR ''0'', CHR ''1''}"
  by (auto simp: swap_bit_def split: if_splits)

lemma swap_chars_binary:
  "swap_chars sig i bs = Inr cs \<Longrightarrow> set bs \<subseteq> {CHR ''0'', CHR ''1''}
     \<Longrightarrow> set cs \<subseteq> {CHR ''0'', CHR ''1''}"
proof (induction bs arbitrary: i cs)
  case Nil
  then show ?case by simp
next
  case (Cons b bs)
  from Cons.prems(1) obtain c cs' where
    cs: "cs = c # cs'" and rest: "swap_chars sig (Suc i) bs = Inr cs'" and
    c: "c = b \<or> swap_bit b = Some c"
    by (auto split: option.splits if_splits sum.splits)
  from c Cons.prems(2) have "c \<in> {CHR ''0'', CHR ''1''}"
    using swap_bit_binary by auto
  moreover have "set cs' \<subseteq> {CHR ''0'', CHR ''1''}"
    using Cons.IH [OF rest] Cons.prems(2) by simp
  ultimately show ?case using cs by simp
qed

lemma swap_bitstring_binary:
  "swap_bitstring key sig = Inr bs \<Longrightarrow> binary_string n key \<Longrightarrow> binary_string n bs"
proof -
  assume a: "swap_bitstring key sig = Inr bs" and b: "binary_string n key"
  from a obtain cs where cs: "swap_chars sig 0 key = Inr cs" and bs: "bs = rev cs"
    by (auto simp: swap_bitstring_def split: sum.splits)
  from b have "length key = n" and k: "set key \<subseteq> {CHR ''0'', CHR ''1''}"
    by (simp_all add: binary_string_def)
  with swap_chars_length [OF cs] swap_chars_binary [OF cs k] bs
  show ?thesis by (simp add: binary_string_def)
qed

lemma dict_set_keys: "fst ` set (dict_set d k v) = insert k (fst ` set d)"
  by (induction d k v rule: dict_set.induct) (simp_all add: insert_commute)

lemma accumulate_keys: "fst ` set (accumulate c b v) = insert b (fst ` set c)"
  by (simp add: accumulate_def dict_set_keys split: option.splits)

lemma fold_counts_keys:
  "fold_counts fs c items = Inr c' \<Longrightarrow> \<forall>k \<in> fst ` set c. binary_string n k
    \<Longrightarrow> \<forall>k \<in> fst ` set items. binary_string n k \<Longrightarrow> \<forall>k \<in> fst ` set c'. binary_string n k"
proof (induction items arbitrary: c)
  case Nil
  then show ?case by simp
next
  case (Cons kv items)
  obtain key v where kv: "kv = (key, v)" by (cases kv)
  from Cons.prems(1) kv obtain bs where
    bs: "swap_bitstring key fs = Inr bs" and
    rest: "fold_counts fs (accumulate c bs v) items = Inr c'"
    by (auto split: sum.splits)
  have "binary_string n key" using Cons.prems(3) kv by simp
  then have "binary_string n bs" using bs swap_bitstring_binary by blast
  then have acc: "\<forall>k \<in> fst ` set (accumulate c bs v). binary_string n k"
    using Cons.prems(2) by (simp add: accumulate_keys)
  show ?case
    by (rule Cons.IH [OF rest acc]) (use Cons.prems(3) in simp)
qed

lemma run_data_keys:
  "run_data c ds = Inr c' \<Longrightarrow> \<forall>k \<in> fst ` set c. binary_string n k
    \<Longrightarrow> \<forall>d \<in> set ds. \<forall>k \<in> fst ` set (counts d). binary_string n k
    \<Longrightarrow> \<forall>k \<in> fst ` set c'. binary_string n k"
proof (induction ds arbitrary: c)
  case Nil
  then show ?case by simp
next
  case (Cons d ds)
  from Cons.prems(1) obtain c1 where
    one: "process_datum c d = Inr c1" and rest: "run_data c1 ds = Inr c'"
    by (auto split: sum.splits)
  from process_datum_InrD [OF one] obtain fs where f: "fold_counts fs c (counts d) = Inr c1"
    by blast
  have here: "\<forall>k \<in> fst ` set (counts d). binary_string n k"
    using Cons.prems(3) by simp
  have later: "\<forall>d \<in> set ds. \<forall>k \<in> fst ` set (counts d). binary_string n k"
    using Cons.prems(3) by simp
  have "\<forall>k \<in> fst ` set c1. binary_string n k"
    by (rule fold_counts_keys [OF f Cons.prems(2) here])
  then show ?case by (rule Cons.IH [OF rest _ later])
qed

text \<open>
  Claim C9, as amended. The keys of the combined histogram are not restricted to the
  measured positions: when every key of every input histogram is a bitstring over \<open>0\<close>
  and \<open>1\<close> of one width \<open>n\<close> (the full classical register, \<open>n = circ_nc + k\<close> for the
  circuits of the generator), every key of the combined histogram is a bitstring over
  \<open>0\<close> and \<open>1\<close> of that same width \<open>n\<close>.
\<close>

theorem keys_full_width:
  assumes "run_analysis data = Inr combined"
    and "\<forall>d \<in> set data. \<forall>k \<in> fst ` set (counts d). binary_string n k"
  shows "\<forall>k \<in> fst ` set combined. binary_string n k"
  using run_data_keys [of "[]" data combined n] assms by (simp add: run_analysis_def)

text \<open>Two results of width 3 (one classical bit of the base circuit, two measured qubits).\<close>

theorem keys_full_width_witness:
  "run_analysis
     [\<lparr>counts = [(''110'', 4), (''001'', 1)],
       metadata = [(''rm_bits'', [1, 2]), (''rm_sig'', [1, 1])]\<rparr>,
      \<lparr>counts = [(''000'', 7)],
       metadata = [(''rm_bits'', [1, 2]), (''rm_sig'', [1, 0])]\<rparr>]
     = Inr [(''000'', 4), (''111'', 1), (''010'', 7)]
   \<and> binary_string 3 ''000'' \<and> binary_string 3 ''111'' \<and> binary_string 3 ''010''"
proof -
  have run: "run_analysis
     [\<lparr>counts = [(''110'', 4), (''001'', 1)],
       metadata = [(''rm_bits'', [1, 2]), (''rm_sig'', [1, 1])]\<rparr>,
      \<lparr>counts = [(''000'', 7)],
       metadata = [(''rm_bits'', [1, 2]), (''rm_sig'', [1, 0])]\<rparr>]
     = Inr [(''000'', 4), (''111'', 1), (''010'', 7)]"
    by code_simp
  have inp: "\<forall>d \<in> set
     [\<lparr>counts = [(''110'', 4), (''001'', 1)],
       metadata = [(''rm_bits'', [1, 2]), (''rm_sig'', [1, 1])]\<rparr>,
      \<lparr>counts = [(''000'', 7)],
       metadata = [(''rm_bits'', [1, 2]), (''rm_sig'', [1, 0])]\<rparr>].
        \<forall>k \<in> fst ` set (counts d). binary_string 3 k"
    by (simp add: binary_string_def)
  from keys_full_width [OF run inp] run show ?thesis by simp
qed

text \<open>
  The claim as stated fails as soon as the base circuit has a classical bit of its own:
  with reserved bits \<open>[1, 2]\<close> (two measured qubits) the key of the combined histogram has
  three characters.
\<close>

theorem keys_measured_width_counterexample:
  "run_analysis
     [\<lparr>counts = [(''010'', 5)],
       metadata = [(''rm_bits'', [1, 2]), (''rm_sig'', [0, 1])]\<rparr>]
     = Inr [(''011'', 5)]
   \<and> \<not> binary_string (length [1, 2 :: int]) ''011''"
proof -
  have "run_analysis
     [\<lparr>counts = [(''010'', 5)],
       metadata = [(''rm_bits'', [1, 2]), (''rm_sig'', [0, 1])]\<rparr>]
     = Inr [(''011'', 5)]"
    by code_simp
  then show ?thesis by (simp add: binary_string_def)
qed

subsection \<open>Missing metadata\<close>

lemma swap_chars_error: "swap_chars sig i bs = Inl e \<Longrightarrow> python_exception e"
  by (induction bs arbitrary: i)
     (auto simp: python_exception_def split: option.splits if_splits sum.splits)

lemma assign_sig_error: "assign_sig fs zs = Inl e \<Longrightarrow> python_exception e"
  by (induction fs zs rule: assign_sig.induct)
     (auto simp: python_exception_def split: option.splits)

lemma fold_counts_error: "fold_counts fs c items = Inl e \<Longrightarrow> python_exception e"
  by (induction fs c items rule: fold_counts.induct)
     (auto simp: swap_bitstring_def split: sum.splits dest: swap_chars_error)

lemma process_datum_error: "process_datum c d = Inl e \<Longrightarrow> python_exception e"
  unfolding process_datum_def Let_def
  by (auto simp del: fold_counts.simps simp: python_exception_def
      split: list.splits option.splits sum.splits prod.splits
      dest: assign_sig_error fold_counts_error)

lemma process_datum_lacking:
  "dict_get (metadata d) ''rm_bits'' = None \<or> dict_get (metadata d) ''rm_sig'' = None
    \<Longrightarrow> \<exists>e. process_datum c d = Inl e"
  unfolding process_datum_def Let_def
  by (auto simp del: fold_counts.simps split: list.splits option.splits)

lemma run_data_lacking:
  assumes "d \<in> set ds"
    and "dict_get (metadata d) ''rm_bits'' = None \<or> dict_get (metadata d) ''rm_sig'' = None"
  shows "\<exists>e. run_data c ds = Inl e \<and> python_exception e"
  using assms(1)
proof (induction ds arbitrary: c)
  case Nil
  then show ?case by simp
next
  case (Cons x ds)
  show ?case
  proof (cases "process_datum c x")
    case (Inl e)
    then show ?thesis using process_datum_error by auto
  next
    case (Inr c1)
    with process_datum_lacking [OF assms(2), of c] have "x \<noteq> d" by auto
    with Cons.prems have "d \<in> set ds" by simp
    from Cons.IH [OF this] Inr show ?thesis by simp
  qed
qed

lemma process_datum_lacking_key:
  assumes "dict_get (metadata d) ''rm_bits'' = None \<or> dict_get (metadata d) ''rm_sig'' = None"
    and "counts d \<noteq> []"
  shows "process_datum c d =
     Inl (KeyError (if dict_get (metadata d) ''rm_bits'' = None then ''rm_bits'' else ''rm_sig''))"
  using assms unfolding process_datum_def Let_def
  by (auto simp del: fold_counts.simps split: list.splits option.splits)

text \<open>
  Claim C8, as amended. When a supplied result lacks \<open>rm_bits\<close> or \<open>rm_sig\<close>, the
  analysis fails with one of Python's own exceptions and returns no histogram. The
  exception is the \<open>KeyError\<close> of the missing key (\<open>rm_bits\<close> is looked up first) when
  the results before that one are processed without failure and its own histogram is not
  empty.
\<close>

theorem missing_metadata_fails:
  assumes "dict_get (metadata d) ''rm_bits'' = None \<or> dict_get (metadata d) ''rm_sig'' = None"
  shows "(d \<in> set data \<longrightarrow> (\<exists>e. run_analysis data = Inl e \<and> python_exception e)) \<and>
         (run_analysis before = Inr c \<and> counts d \<noteq> [] \<longrightarrow>
            run_analysis (before @ d # after) =
              Inl (KeyError (if dict_get (metadata d) ''rm_bits'' = None
                             then ''rm_bits'' else ''rm_sig'')))"
proof (intro conjI impI)
  assume "d \<in> set data"
  then show "\<exists>e. run_analysis data = Inl e \<and> python_exception e"
    unfolding run_analysis_def using run_data_lacking assms by blast
next
  assume a: "run_analysis before = Inr c \<and> counts d \<noteq> []"
  then show "run_analysis (before @ d # after) =
      Inl (KeyError (if dict_get (metadata d) ''rm_bits'' = None then ''rm_bits'' else ''rm_sig''))"
    using process_datum_lacking_key [OF assms, of c]
    by (simp add: run_analysis_def run_data_append)
qed

text \<open>A complete result followed by one without its pattern.\<close>

theorem missing_metadata_fails_witness:
  "dict_get (metadata \<lparr>counts = [(''10'', 5)], metadata = [(''rm_bits'', [0, 1])]\<rparr>) ''rm_sig''
     = None
   \<and> run_analysis
       [\<lparr>counts = [(''01'', 5)], metadata = [(''rm_bits'', [0, 1]), (''rm_sig'', [1, 0])]\<rparr>]
     = Inr [(''00'', 5)]
   \<and> run_analysis
       [\<lparr>counts = [(''01'', 5)], metadata = [(''rm_bits'', [0, 1]), (''rm_sig'', [1, 0])]\<rparr>,
        \<lparr>counts = [(''10'', 5)], metadata = [(''rm_bits'', [0, 1])]\<rparr>]
     = Inl (KeyError ''rm_sig'')
   \<and> python_exception (KeyError ''rm_sig'')"
proof -
  let ?good = "\<lparr>counts = [(''01'', 5)],
                 metadata = [(''rm_bits'', [0, 1]), (''rm_sig'', [1, 0])]\<rparr>"
  let ?bad = "\<lparr>counts = [(''10'', 5)], metadata = [(''rm_bits'', [0, 1])]\<rparr>"
  have lack: "dict_get (metadata ?bad) ''rm_bits'' = None \<or> dict_get (metadata ?bad) ''rm_sig'' = None"
    by (simp add: dict_get_def)
  have good: "run_analysis [?good] = Inr [(''00'', 5)]"
    by code_simp
  from missing_metadata_fails [OF lack, of "[?good, ?bad]" "[?good]" "[(''00'', 5)]" "[]"] good
  show ?thesis
    by (auto simp: dict_get_def python_exception_def)
qed

text \<open>
  The error of the claim as stated is never raised: a result without its pattern makes
  the analysis fail with \<open>KeyError\<close>, and one whose histogram is empty as well makes it
  fail with \<open>StopIteration\<close>, before any metadata is read.
\<close>

theorem missing_metadata_counterexample:
  "run_analysis [\<lparr>counts = [(''10'', 5)], metadata = [(''rm_bits'', [0, 1])]\<rparr>]
     = Inl (KeyError ''rm_sig'')
   \<and> run_analysis [\<lparr>counts = [(''10'', 5)], metadata = [(''rm_bits'', [0, 1])]\<rparr>]
     \<noteq> Inl MetadataMissingError
   \<and> run_analysis [\<lparr>counts = [], metadata = [(''rm_bits'', [0, 1])]\<rparr>]
     = Inl StopIteration
   \<and> run_analysis [\<lparr>counts = [], metadata = [(''rm_bits'', [0, 1])]\<rparr>]
     \<noteq> Inl MetadataMissingError"
proof -
  have a: "run_analysis [\<lparr>counts = [(''10'', 5)], metadata = [(''rm_bits'', [0, 1])]\<rparr>]
     = Inl (KeyError ''rm_sig'')"
    by code_simp
  have b: "run_analysis [\<lparr>counts = [], metadata = [(''rm_bits'', [0, 1])]\<rparr>]
     = Inl StopIteration"
    by code_simp
  from a b show ?thesis by simp
qed

section \<open>Properties of the generator\<close>

subsection \<open>The shape of a run\<close>

lemma draw_rows_lengthD: "draw_rows nb rows cols g = (rs, g') \<Longrightarrow> length rs = rows"
  by (induction rows arbitrary: g rs g') (auto split: prod.splits)

lemma random_pauli_list_length:
  "random_pauli_list lib n sz rng = (ps, g) \<Longrightarrow> length ps = sz"
proof -
  assume a: "random_pauli_list lib n sz rng = (ps, g)"
  obtain zs g1 where z: "draw_rows (next_bit lib) sz n rng = (zs, g1)"
    by (cases "draw_rows (next_bit lib) sz n rng")
  obtain xs g2 where x: "draw_rows (next_bit lib) sz n g1 = (xs, g2)"
    by (cases "draw_rows (next_bit lib) sz n g1")
  from a z x have "ps = map (\<lambda>(z, x). \<lparr>pauli_z = z, pauli_x = x\<rparr>) (zip zs xs)"
    by (simp add: random_pauli_list_def)
  with draw_rows_lengthD [OF z] draw_rows_lengthD [OF x] show ?thesis by simp
qed

lemma circuits_loop_length:
  "circuits_loop lib exp cn mn cq cc mq mc om ps = Inr circs \<Longrightarrow> length circs = length ps"
  by (induction ps arbitrary: circs) (auto split: sum.splits)

lemma circuits_loop_member:
  "circuits_loop lib exp cn mn cq cc mq mc om ps = Inr circs \<Longrightarrow> circ \<in> set circs
    \<Longrightarrow> \<exists>p \<in> set ps. make_circuit lib exp cn mn cq cc mq mc om p = Inr circ"
  by (induction ps arbitrary: circs) (auto split: sum.splits)


lemma circuits_loop_accepted:
  assumes "accepts lib (Compose_circuit (num_qubits exp) (cn + mn) (circuit exp) cq cc)"
    and "\<forall>p. accepts lib (Compose_pauli (num_qubits exp) (cn + mn) p mq)"
    and "accepts lib (Measure (num_qubits exp) (cn + mn) mq mc)"
  shows "\<exists>circs. circuits_loop lib exp cn mn cq cc mq mc om ps = Inr circs"
  using assms by (induction ps) (auto simp: make_circuit_def Let_def)

text \<open>
  A run of \<open>circuits\<close> fails with \<open>ValueError\<close> before the loop when the seed is a
  negative integer; otherwise it is the loop over the Paulis that \<open>random_pauli_list\<close>
  returned, as many as the sample count.
\<close>

lemma seed_rng_cases:
  "seed_rng lib seed entropy =
     (if negative_seed seed then Inl ValueError
      else Inr (case seed of GeneratorSeed g \<Rightarrow> g | IntSeed s \<Rightarrow> default_rng lib s
                  | NoSeed \<Rightarrow> entropy))"
  by (cases seed) (simp_all add: seed_rng_def negative_seed_def)

lemma circuits_negative_seed:
  "negative_seed (opt_seed exp) \<Longrightarrow> fst (circuits lib exp entropy) = Inl ValueError"
  by (simp add: circuits_def seed_rng_cases)

lemma circuits_unfold:
  assumes "\<not> negative_seed (opt_seed exp)"
  shows "\<exists>ps. length ps = num_samples exp \<and>
     fst (circuits lib exp entropy) =
       circuits_loop lib exp (circ_num_clbits (circuit exp)) (length (measured_qubits exp))
         [0..<num_qubits exp] [0..<circ_num_clbits (circuit exp)] (measured_qubits exp)
         [circ_num_clbits (circuit exp)..<
            circ_num_clbits (circuit exp) + length (measured_qubits exp)]
         (case circ_metadata (circuit exp) of None \<Rightarrow> [] | Some m \<Rightarrow> m) ps"
proof -
  let ?rng = "case opt_seed exp of GeneratorSeed g \<Rightarrow> g | IntSeed s \<Rightarrow> default_rng lib s
                | NoSeed \<Rightarrow> entropy"
  have rng: "seed_rng lib (opt_seed exp) entropy = Inr ?rng"
    using assms by (simp add: seed_rng_cases)
  obtain ps g where
    r: "random_pauli_list lib (length (measured_qubits exp)) (num_samples exp) ?rng = (ps, g)"
    by (cases "random_pauli_list lib (length (measured_qubits exp)) (num_samples exp) ?rng")
  have "length ps = num_samples exp"
    by (rule random_pauli_list_length [OF r])
  moreover have "fst (circuits lib exp entropy) =
       circuits_loop lib exp (circ_num_clbits (circuit exp)) (length (measured_qubits exp))
         [0..<num_qubits exp] [0..<circ_num_clbits (circuit exp)] (measured_qubits exp)
         [circ_num_clbits (circuit exp)..<
            circ_num_clbits (circuit exp) + length (measured_qubits exp)]
         (case circ_metadata (circuit exp) of None \<Rightarrow> [] | Some m \<Rightarrow> m) ps"
    using r by (simp add: circuits_def rng Let_def)
  ultimately show ?thesis by blast
qed

lemma circuits_InrD:
  assumes "fst (circuits lib exp entropy) = Inr circs"
  shows "\<exists>ps. length ps = num_samples exp \<and>
       circuits_loop lib exp (circ_num_clbits (circuit exp)) (length (measured_qubits exp))
         [0..<num_qubits exp] [0..<circ_num_clbits (circuit exp)] (measured_qubits exp)
         [circ_num_clbits (circuit exp)..<
            circ_num_clbits (circuit exp) + length (measured_qubits exp)]
         (case circ_metadata (circuit exp) of None \<Rightarrow> [] | Some m \<Rightarrow> m) ps = Inr circs"
proof -
  have "\<not> negative_seed (opt_seed exp)"
    using assms circuits_negative_seed [of exp lib entropy] by auto
  from circuits_unfold [OF this, of lib entropy] assms show ?thesis by auto
qed

lemma circuits_count:
  assumes "fst (circuits lib exp entropy) = Inr circs"
  shows "length circs = num_samples exp"
proof -
  from circuits_InrD [OF assms] obtain ps where
    "length ps = num_samples exp" and
    "circuits_loop lib exp (circ_num_clbits (circuit exp)) (length (measured_qubits exp))
         [0..<num_qubits exp] [0..<circ_num_clbits (circuit exp)] (measured_qubits exp)
         [circ_num_clbits (circuit exp)..<
            circ_num_clbits (circuit exp) + length (measured_qubits exp)]
         (case circ_metadata (circuit exp) of None \<Rightarrow> [] | Some m \<Rightarrow> m) ps = Inr circs"
    by blast
  then show ?thesis using circuits_loop_length by fastforce
qed

subsection \<open>The reserved classical bits\<close>

lemma dict_get_set: "dict_get (dict_set d k v) k' = (if k' = k then Some v else dict_get d k')"
  by (induction d k v rule: dict_set.induct) (auto simp: dict_get_def)

lemma make_circuit_data:
  "make_circuit lib exp cn mn cq cc mq mc om p = Inr circ \<Longrightarrow>
     var_data circ = Base_circuit (circuit exp) cq cc # Pauli_gate p mq
                       # map (\<lambda>(q, c). Measure_op q c) (zip mq mc)"
  by (auto simp: make_circuit_def Let_def split: if_splits)

lemma measurements_make:
  assumes "make_circuit lib exp cn mn cq cc mq mc om p = Inr circ"
  shows "measurements circ = zip mq mc"
proof -
  have "concat (map (\<lambda>i. case i of Measure_op q c \<Rightarrow> [(q, c)] | _ \<Rightarrow> [])
          (map (\<lambda>(q, c). Measure_op q c) zs)) = zs" for zs :: "(nat \<times> nat) list"
    by (induction zs) auto
  with make_circuit_data [OF assms] show ?thesis by (simp add: measurements_def)
qed

lemma base_clbits_make:
  assumes "make_circuit lib exp cn mn cq cc mq mc om p = Inr circ"
  shows "base_clbits circ = cc"
proof -
  have "concat (map (\<lambda>i. case i of Base_circuit _ _ cs \<Rightarrow> cs | _ \<Rightarrow> [])
          (map (\<lambda>(q, c). Measure_op q c) zs)) = []" for zs :: "(nat \<times> nat) list"
    by (induction zs) auto
  with make_circuit_data [OF assms] show ?thesis by (simp add: base_clbits_def)
qed

lemma metadata_make:
  "make_circuit lib exp cn mn cq cc mq mc om p = Inr circ \<Longrightarrow>
     dict_get (var_metadata circ) ''rm_bits'' = Some (map int mc) \<and>
     var_num_clbits circ = cn + mn"
  by (auto simp: make_circuit_def Let_def dict_get_set split: if_splits)

text \<open>
  Claim C5. In every circuit that \<open>circuits\<close> returns, whatever the number
  \<open>circ_nc\<close> of classical bits of the base circuit, measured qubit \<open>i\<close> of the list is
  measured into classical bit \<open>circ_nc + i\<close>: the reserved positions are the contiguous
  block \<open>circ_nc, ..., circ_nc + k - 1\<close> in the order of the measured-qubit list, right
  behind the base circuit's own bits \<open>0, ..., circ_nc - 1\<close> and disjoint from them, and
  that block is what the metadata records as \<open>rm_bits\<close>.
\<close>

theorem reserved_block:
  assumes "fst (circuits lib exp entropy) = Inr circs" and "circ \<in> set circs"
  shows "measurements circ =
           zip (measured_qubits exp)
             [circ_num_clbits (circuit exp)..<
                circ_num_clbits (circuit exp) + length (measured_qubits exp)]
       \<and> map snd (measurements circ) =
           [circ_num_clbits (circuit exp)..<
              circ_num_clbits (circuit exp) + length (measured_qubits exp)]
       \<and> length (measurements circ) = length (measured_qubits exp)
       \<and> base_clbits circ = [0..<circ_num_clbits (circuit exp)]
       \<and> set (map snd (measurements circ)) \<inter> set (base_clbits circ) = {}
       \<and> var_num_clbits circ = circ_num_clbits (circuit exp) + length (measured_qubits exp)
       \<and> dict_get (var_metadata circ) ''rm_bits'' =
           Some (map int [circ_num_clbits (circuit exp)..<
                            circ_num_clbits (circuit exp) + length (measured_qubits exp)])"
proof -
  from circuits_InrD [OF assms(1)] circuits_loop_member [OF _ assms(2)]
  obtain p where m: "make_circuit lib exp (circ_num_clbits (circuit exp))
       (length (measured_qubits exp))
       [0..<num_qubits exp] [0..<circ_num_clbits (circuit exp)] (measured_qubits exp)
       [circ_num_clbits (circuit exp)..<
          circ_num_clbits (circuit exp) + length (measured_qubits exp)]
       (case circ_metadata (circuit exp) of None \<Rightarrow> [] | Some m \<Rightarrow> m) p = Inr circ"
    by metis
  note a = measurements_make [OF m] base_clbits_make [OF m] metadata_make [OF m]
  have s: "map snd (measurements circ) = [circ_num_clbits (circuit exp)..<
              circ_num_clbits (circuit exp) + length (measured_qubits exp)]"
    using a(1) by simp
  have l: "length (measurements circ) = length (measured_qubits exp)"
    using a(1) by simp
  have d: "set (map snd (measurements circ)) \<inter> set (base_clbits circ) = {}"
    unfolding s a(2) by auto
  show ?thesis using a s l d by simp
qed

text \<open>
  The two circuits generated from the base circuit \<open>ghz\<close> with two samples: qubits 0 and
  1 are measured into classical bits 1 and 2, behind the base circuit's bit 0.
\<close>

theorem reserved_block_witness:
  "fst (circuits digits_library (ghz_experiment (Passed (Some 2))) 0)
     = Inr [ghz_variant ''XI'' [False, False] [False, True] [0, 1],
            ghz_variant ''ZY'' [True, True] [True, False] [1, 0]]
   \<and> measurements (ghz_variant ''ZY'' [True, True] [True, False] [1, 0]) = [(0, 1), (1, 2)]
   \<and> base_clbits (ghz_variant ''ZY'' [True, True] [True, False] [1, 0]) = [0]
   \<and> var_num_clbits (ghz_variant ''ZY'' [True, True] [True, False] [1, 0]) = 3
   \<and> dict_get (var_metadata (ghz_variant ''ZY'' [True, True] [True, False] [1, 0])) ''rm_bits''
       = Some [1, 2]"
proof -
  have run: "fst (circuits digits_library (ghz_experiment (Passed (Some 2))) 0)
     = Inr [ghz_variant ''XI'' [False, False] [False, True] [0, 1],
            ghz_variant ''ZY'' [True, True] [True, False] [1, 0]]"
    by code_simp
  have mem: "ghz_variant ''ZY'' [True, True] [True, False] [1, 0]
     \<in> set [ghz_variant ''XI'' [False, False] [False, True] [0, 1],
            ghz_variant ''ZY'' [True, True] [True, False] [1, 0]]"
    by simp
  have upt: "[0..<2] = [0, 1]" "[1..<3] = [1, 2]" "[0..<1] = [0]"
    by (simp_all add: upt_rec)
  have e: "measured_qubits (ghz_experiment (Passed (Some 2))) = [0, 1]"
     "circ_num_clbits (circuit (ghz_experiment (Passed (Some 2)))) = 1"
    by (simp_all add: ghz_experiment_def init_def ghz_def upt)
  from reserved_block [OF run mem] run show ?thesis
    by (simp add: e upt)
qed

subsection \<open>Runs with the same seed\<close>

text \<open>
  Claim C4. With a seed, the circuits do not depend on anything but the arguments of
  the call: two calls on the same experiment, sample count and seed return the same
  sequence of circuits (patterns, names, measurements and metadata) and leave the same
  generator state, whatever the operating system's entropy is at either call. With an integer seed this
  includes two calls one after the other on the same experiment object, since the first
  call leaves the seed option as it was. (A \<open>Generator\<close> object is the same seed at the
  second call only if it is in the same state.)
\<close>

theorem seeded_runs_agree:
  "(opt_seed exp \<noteq> NoSeed \<longrightarrow> circuits lib exp e1 = circuits lib exp e2) \<and>
   (opt_seed exp = IntSeed s \<longrightarrow>
      fst (circuits lib (exp\<lparr>opt_seed := snd (circuits lib exp e1)\<rparr>) e2)
        = fst (circuits lib exp e1))"
proof (intro conjI impI)
  assume "opt_seed exp \<noteq> NoSeed"
  then show "circuits lib exp e1 = circuits lib exp e2"
    by (cases "opt_seed exp") (simp_all add: circuits_def seed_rng_def)
next
  assume s: "opt_seed exp = IntSeed s"
  then have "snd (circuits lib exp e1) = IntSeed s"
    by (simp add: circuits_def seed_rng_def Let_def split: prod.splits)
  with s have "exp\<lparr>opt_seed := snd (circuits lib exp e1)\<rparr> = exp" by simp
  moreover have "circuits lib exp e2 = circuits lib exp e1"
    using s by (simp add: circuits_def seed_rng_def)
  ultimately show "fst (circuits lib (exp\<lparr>opt_seed := snd (circuits lib exp e1)\<rparr>) e2)
        = fst (circuits lib exp e1)" by simp
qed

text \<open>Seed \<open>108\<close>, two samples, entropy \<open>0\<close> at the first call and \<open>77\<close> at the second.\<close>

theorem seeded_runs_agree_witness:
  "opt_seed (ghz_experiment (Passed (Some 2))) = IntSeed 108
   \<and> circuits digits_library (ghz_experiment (Passed (Some 2))) 0
       = circuits digits_library (ghz_experiment (Passed (Some 2))) 77
   \<and> fst (circuits digits_library
        ((ghz_experiment (Passed (Some 2)))
           \<lparr>opt_seed := snd (circuits digits_library (ghz_experiment (Passed (Some 2))) 0)\<rparr>)
        77)
       = Inr [ghz_variant ''XI'' [False, False] [False, True] [0, 1],
              ghz_variant ''ZY'' [True, True] [True, False] [1, 0]]"
proof -
  have s: "opt_seed (ghz_experiment (Passed (Some 2))) = IntSeed 108"
    by (simp add: ghz_experiment_def init_def)
  have run: "fst (circuits digits_library (ghz_experiment (Passed (Some 2))) 0)
     = Inr [ghz_variant ''XI'' [False, False] [False, True] [0, 1],
            ghz_variant ''ZY'' [True, True] [True, False] [1, 0]]"
    by code_simp
  note agree = seeded_runs_agree [of "ghz_experiment (Passed (Some 2))" digits_library 0 77 108]
  have same: "circuits digits_library (ghz_experiment (Passed (Some 2))) 0
       = circuits digits_library (ghz_experiment (Passed (Some 2))) 77"
    using agree s by simp
  have again: "fst (circuits digits_library
        ((ghz_experiment (Passed (Some 2)))
           \<lparr>opt_seed := snd (circuits digits_library (ghz_experiment (Passed (Some 2))) 0)\<rparr>)
        77)
       = fst (circuits digits_library (ghz_experiment (Passed (Some 2))) 0)"
    using agree s by blast
  show ?thesis
    by (intro conjI) (rule s, rule same, simp only: again run)
qed

subsection \<open>The number of circuits\<close>

lemma ghz_accepted:
  "\<exists>circs. fst (circuits digits_library (init ghz measured None ns seed) entropy) = Inr circs"
  if "measured = None \<or> measured = Some [0]" and "\<not> negative_seed seed"
proof -
  let ?e = "init ghz measured None ns seed :: nat randomized_measurement"
  have upt: "[0..<2] = [0, 1]"
    by (simp add: upt_rec)
  have nn: "\<not> negative_seed (opt_seed ?e)"
    using that(2) by (simp add: init_def)
  have nq: "num_qubits ?e = 2" and nc: "circ_num_clbits (circuit ?e) = 1"
    and c: "circuit ?e = ghz"
    by (simp_all add: num_qubits_def init_def ghz_def)
  have mq: "measured_qubits ?e = [0, 1] \<or> measured_qubits ?e = [0]"
    using that(1) by (auto simp: init_def ghz_def upt)
  have a1: "accepts digits_library (Compose_circuit (num_qubits ?e)
               (circ_num_clbits (circuit ?e) + length (measured_qubits ?e)) (circuit ?e)
               [0..<num_qubits ?e] [0..<circ_num_clbits (circuit ?e)])"
    unfolding nq nc c by (simp add: digits_library_def ghz_def list_all_iff)
  have a2: "accepts digits_library (Compose_pauli (num_qubits ?e)
               (circ_num_clbits (circuit ?e) + length (measured_qubits ?e)) p
               (measured_qubits ?e))" for p
    unfolding nq nc using mq by (auto simp: digits_library_def)
  have a3: "accepts digits_library (Measure (num_qubits ?e)
               (circ_num_clbits (circuit ?e) + length (measured_qubits ?e))
               (measured_qubits ?e)
               [circ_num_clbits (circuit ?e)..<
                  circ_num_clbits (circuit ?e) + length (measured_qubits ?e)])"
    unfolding nq nc using mq by (auto simp: digits_library_def list_all_iff)
  from circuits_unfold [OF nn, of digits_library entropy] obtain ps where
    run: "fst (circuits digits_library ?e entropy) =
       circuits_loop digits_library ?e (circ_num_clbits (circuit ?e))
         (length (measured_qubits ?e))
         [0..<num_qubits ?e] [0..<circ_num_clbits (circuit ?e)] (measured_qubits ?e)
         [circ_num_clbits (circuit ?e)..<
            circ_num_clbits (circuit ?e) + length (measured_qubits ?e)]
         (case circ_metadata (circuit ?e) of None \<Rightarrow> [] | Some m \<Rightarrow> m) ps"
    by blast
  from a2 have a2': "\<forall>p. accepts digits_library (Compose_pauli (num_qubits ?e)
               (circ_num_clbits (circuit ?e) + length (measured_qubits ?e)) p
               (measured_qubits ?e))"
    by blast
  from circuits_loop_accepted [OF a1 a2' a3] show ?thesis
    unfolding run by blast
qed

text \<open>
  Claim C6, as amended. When the caller does not specify a sample count, the constructor's
  default of 10 applies and \<open>circuits\<close> returns exactly 10 circuits. When the caller
  passes \<open>None\<close> as the sample count, it returns exactly \<open>2^n\<close> circuits, where \<open>n\<close> is
  the number of physical qubits of the experiment (the number of qubits of the base circuit
  unless the caller gives the physical qubits), not the number of measured qubits. A given
  sample count is the number of circuits.
\<close>

theorem sample_count:
  assumes "fst (circuits lib (init circ measured physical ns seed) entropy) = Inr circs"
  shows "length circs =
     (case ns of
        Omitted \<Rightarrow> 10
      | Passed None \<Rightarrow>
          2 ^ (case physical of None \<Rightarrow> circ_num_qubits circ | Some qs \<Rightarrow> length qs)
      | Passed (Some n) \<Rightarrow> n)"
proof -
  have "length circs = num_samples (init circ measured physical ns seed)"
    by (rule circuits_count [OF assms])
  then show ?thesis
    by (simp add: num_samples_def num_qubits_def init_def split: arg.splits option.splits)
qed

text \<open>
  On the two-qubit base circuit: ten circuits without a sample count, and four with the
  sample count \<open>None\<close> although only qubit 0 is measured.
\<close>

theorem sample_count_witness:
  "num_circuits (fst (circuits digits_library (init ghz None None Omitted (IntSeed 5)) 0))
     = Some 10
   \<and> num_circuits
       (fst (circuits digits_library (init ghz (Some [0]) None (Passed None) (IntSeed 5)) 0))
     = Some (2 ^ circ_num_qubits ghz)"
proof -
  obtain circs where
    a: "fst (circuits digits_library (init ghz None None Omitted (IntSeed 5)) 0) = Inr circs"
    using ghz_accepted [where measured = None and seed = "IntSeed 5"]
    by (auto simp: negative_seed_def)
  obtain circs' where
    b: "fst (circuits digits_library (init ghz (Some [0]) None (Passed None) (IntSeed 5)) 0)
          = Inr circs'"
    using ghz_accepted [where measured = "Some [0]" and seed = "IntSeed 5"]
    by (auto simp: negative_seed_def)
  from sample_count [OF a] sample_count [OF b] a b show ?thesis
    by (simp add: num_circuits_def)
qed

text \<open>
  The claim as stated fails in both of its parts: without a sample count the two measured
  qubits give 10 circuits, not \<open>2^2\<close>; and with the sample count \<open>None\<close> the single
  measured qubit of a two-qubit experiment gives 4 circuits, not \<open>2^1\<close>.
\<close>

theorem sample_count_counterexample:
  "num_circuits (fst (circuits digits_library (ghz_experiment Omitted) 0)) = Some 10
   \<and> num_circuits (fst (circuits digits_library (ghz_experiment Omitted) 0))
       \<noteq> Some (2 ^ length (measured_qubits (ghz_experiment Omitted)))
   \<and> num_circuits
       (fst (circuits digits_library (init ghz (Some [0]) None (Passed None) (IntSeed 108)) 0))
       = Some 4
   \<and> num_circuits
       (fst (circuits digits_library (init ghz (Some [0]) None (Passed None) (IntSeed 108)) 0))
       \<noteq> Some (2 ^ length (measured_qubits
                  (init ghz (Some [0]) None (Passed None) (IntSeed 108) :: nat randomized_measurement)))"
proof -
  obtain circs where
    a: "fst (circuits digits_library (ghz_experiment Omitted) 0) = Inr circs"
    unfolding ghz_experiment_def
    using ghz_accepted [where measured = None and seed = "IntSeed 108"]
    by (auto simp: negative_seed_def)
  have na: "num_samples (ghz_experiment Omitted) = 10"
    by (simp add: num_samples_def ghz_experiment_def init_def)
  have ma: "length (measured_qubits (ghz_experiment Omitted)) = 2"
    by (simp add: ghz_experiment_def init_def ghz_def)
  obtain circs' where
    b: "fst (circuits digits_library (init ghz (Some [0]) None (Passed None) (IntSeed 108)) 0)
          = Inr circs'"
    using ghz_accepted [where measured = "Some [0]" and seed = "IntSeed 108"]
    by (auto simp: negative_seed_def)
  have nb: "num_samples (init ghz (Some [0]) None (Passed None) (IntSeed 108)
              :: nat randomized_measurement) = 4"
    by (simp add: num_samples_def num_qubits_def init_def ghz_def)
  have mb: "length (measured_qubits (init ghz (Some [0]) None (Passed None) (IntSeed 108)
              :: nat randomized_measurement)) = 1"
    by (simp add: init_def)
  from circuits_count [OF a] circuits_count [OF b] a b show ?thesis
    unfolding ma mb by (simp add: num_circuits_def na nb)
qed

subsection \<open>Invalid measured qubits\<close>





end
